theory Spec2Isabelle
  imports Main "HOL-Library.Word"
begin

section \<open>JavaScript primitives used by Huddlecam.js\<close>

text \<open>
  Sockets, modes, directions and coordinates are modelled as integers (\<open>int\<close>); the
  speeds are modelled as any Number, see below. Every argument is passed; the
  defaults of omitted arguments are not modelled. Strings are \<open>string\<close>, a \<open>Buffer\<close>
  is a list of bytes.
\<close>

type_synonym byte = "8 word"

text \<open>The digit table of \<open>Number.prototype.toString(16)\<close> (lower case).\<close>

definition hex_digit :: "nat \<Rightarrow> char" where
  "hex_digit d = ''0123456789abcdef'' ! d"

text \<open>
  \<open>n.toString(16)\<close> for a non-negative integer: the digits of \<open>n\<close> in base 16, most
  significant first, with no leading zero (\<open>0\<close> gives \<open>''0''\<close>).
\<close>

function hex_of_nat :: "nat \<Rightarrow> string" where
  "hex_of_nat n = (if n < 16 then [hex_digit n]
                   else hex_of_nat (n div 16) @ [hex_digit (n mod 16)])"
  by pat_completeness auto
termination
  by (relation "measure id") auto

declare hex_of_nat.simps [simp del]

text \<open>\<open>n.toString(16)\<close> for any integer: a negative number is a minus sign and the
  digits of its absolute value.\<close>

definition toString16 :: "int \<Rightarrow> string" where
  "toString16 n = (if n < 0 then CHR ''-'' # hex_of_nat (nat (- n)) else hex_of_nat (nat n))"

text \<open>\<open>s.padStart(n, c)\<close> with a one-character filler: a string of length \<open>n\<close> or more
  is returned as it is.\<close>

definition padStart :: "string \<Rightarrow> nat \<Rightarrow> char \<Rightarrow> string" where
  "padStart s n c = replicate (n - length s) c @ s"

text \<open>\<open>s[i]\<close> inside a template literal: the character at \<open>i\<close>, and the text
  \<open>undefined\<close> when \<open>i\<close> is out of range.\<close>

definition template_index :: "string \<Rightarrow> nat \<Rightarrow> string" where
  "template_index s i = (if i < length s then [s ! i] else ''undefined'')"

text \<open>\<open>s[i]\<close> as a value: \<open>None\<close> stands for \<open>undefined\<close>.\<close>

definition char_at :: "string \<Rightarrow> nat \<Rightarrow> char option" where
  "char_at s i = (if i < length s then Some (s ! i) else None)"

text \<open>\<open>s.slice(a, b)\<close> for \<open>0 \<le> a \<le> b\<close>.\<close>

definition slice :: "string \<Rightarrow> nat \<Rightarrow> nat \<Rightarrow> string" where
  "slice s a b = take (b - a) (drop a s)"

text \<open>The characters matched by \<open>\s\<close> and skipped by \<open>parseInt\<close>, among the codes
  below 256: tab, line feed, vertical tab, form feed, carriage return, space and the
  no-break space.\<close>

definition is_ws :: "char \<Rightarrow> bool" where
  "is_ws c = ((of_char c :: nat) \<in> {9, 10, 11, 12, 13, 32, 160})"

text \<open>\<open>cmd.replace(/\s+/g, '')\<close>: every white-space character is removed.\<close>

definition strip_ws :: "string \<Rightarrow> string" where
  "strip_ws cmd = filter (\<lambda>c. \<not> is_ws c) cmd"

text \<open>The value of a hexadecimal digit, in either case; \<open>None\<close> for any other character.\<close>

definition digit_val :: "char \<Rightarrow> nat option" where
  "digit_val c = (let k = (of_char c :: nat) in
     if 48 \<le> k \<and> k \<le> 57 then Some (k - 48)
     else if 97 \<le> k \<and> k \<le> 102 then Some (k - 87)
     else if 65 \<le> k \<and> k \<le> 70 then Some (k - 55)
     else None)"

definition is_hex :: "char \<Rightarrow> bool" where
  "is_hex c = (digit_val c \<noteq> None)"

definition hex_value :: "string \<Rightarrow> nat" where
  "hex_value ds = foldl (\<lambda>a c. 16 * a + the (digit_val c)) 0 ds"

text \<open>
  \<open>parseInt(raw, 16)\<close>: leading white space is skipped, one sign is read, a prefix
  \<open>0x\<close> or \<open>0X\<close> is dropped, and the longest run of hexadecimal digits is the value;
  with no digit the result is \<open>NaN\<close>, here \<open>None\<close>. (The value is exact up to
  \<open>2^53\<close>, far above the four digits the program parses.)
\<close>

definition parseInt16 :: "string \<Rightarrow> int option" where
  "parseInt16 raw =
     (let s = dropWhile is_ws raw;
          neg = (s \<noteq> [] \<and> hd s = CHR ''-'');
          s1 = (if s \<noteq> [] \<and> (hd s = CHR ''-'' \<or> hd s = CHR ''+'') then tl s else s);
          s2 = (if take 2 s1 = ''0x'' \<or> take 2 s1 = ''0X'' then drop 2 s1 else s1);
          z = takeWhile is_hex s2
      in if z = [] then None
         else Some ((if neg then - 1 else 1) * int (hex_value z)))"

text \<open>
  \<open>Buffer.from(s, 'hex')\<close>: two characters make one byte; decoding stops at the first
  pair that is not two hexadecimal digits, and a single trailing character is dropped.
\<close>

fun Buffer_from_hex :: "string \<Rightarrow> byte list" where
  "Buffer_from_hex (a # b # rest) =
     (case (digit_val a, digit_val b) of
        (Some x, Some y) \<Rightarrow> word_of_nat (16 * x + y) # Buffer_from_hex rest
      | _ \<Rightarrow> [])"
| "Buffer_from_hex _ = []"

text \<open>\<open>data.toString('hex')\<close>: two lower-case digits for each byte.\<close>

definition Buffer_toString_hex :: "byte list \<Rightarrow> string" where
  "Buffer_toString_hex data =
     concat (map (\<lambda>b. [hex_digit (unat b div 16), hex_digit (unat b mod 16)]) data)"

section \<open>Numbers that need not be integers\<close>

text \<open>
  The speeds are passed on as they come, with no rounding and no test for an integer;
  they are modelled as any value a Number can hold. A finite Number is \<open>Finite m k\<close>,
  the value \<open>m / 2^k\<close> (every finite double has this form); the others are \<open>NaN\<close> and
  the two infinities. \<open>Number n\<close> is the integer \<open>n\<close>.
\<close>

datatype number = Finite int nat | NaN | PosInfinity | NegInfinity

definition Number :: "int \<Rightarrow> number" where
  "Number n = Finite n 0"

text \<open>\<open>x < y\<close> on Numbers (\<open>x > y\<close> is \<open>y < x\<close>): false whenever one side is
  \<open>NaN\<close>.\<close>

fun Number_less :: "number \<Rightarrow> number \<Rightarrow> bool" where
  "Number_less NaN _ = False"
| "Number_less _ NaN = False"
| "Number_less PosInfinity _ = False"
| "Number_less _ NegInfinity = False"
| "Number_less NegInfinity _ = True"
| "Number_less _ PosInfinity = True"
| "Number_less (Finite a j) (Finite b k) = (a * 2 ^ k < b * 2 ^ j)"

text \<open>
  The digits after the point of \<open>f / 2^k\<close> in base 16, for \<open>f < 2^k\<close>: each step
  takes the next digit and keeps the rest, and stops when nothing is left. A step
  removes four binary places, so \<open>k\<close> steps always reach the end.
\<close>

fun frac_digits :: "nat \<Rightarrow> nat \<Rightarrow> nat \<Rightarrow> string" where
  "frac_digits 0 f k = []"
| "frac_digits (Suc n) f k =
     (if f = 0 then []
      else hex_digit (16 * f div 2 ^ k) # frac_digits n (16 * f mod 2 ^ k) k)"

text \<open>
  \<open>x.toString(16)\<close> for any Number: a minus sign for a negative value, the digits of
  the integer part, and for a value that is no integer a point and the digits of the
  fraction (\<open>2.5\<close> gives \<open>2.8\<close>). On \<open>Number n\<close> this is \<open>toString16 n\<close>.
\<close>

fun Number_toString16 :: "number \<Rightarrow> string" where
  "Number_toString16 NaN = ''NaN''"
| "Number_toString16 PosInfinity = ''Infinity''"
| "Number_toString16 NegInfinity = ''-Infinity''"
| "Number_toString16 (Finite m k) =
     (if m < 0 then ''-'' else [])
     @ hex_of_nat (nat \<bar>m\<bar> div 2 ^ k)
     @ (if nat \<bar>m\<bar> mod 2 ^ k = 0 then []
        else CHR ''.'' # frac_digits k (nat \<bar>m\<bar> mod 2 ^ k) k)"

section \<open>Coordinate codec\<close>

text \<open>\<open>#toHex(num)\<close>: a negative number is moved up by \<open>0x10000\<close>, then rendered in
  base 16 and padded to four characters.\<close>

definition toHex :: "int \<Rightarrow> string" where
  "toHex num = (let num = (if num < 0 then num + 0x10000 else num)
                in padStart (toString16 num) 4 CHR ''0'')"

text \<open>\<open>#extractHex(chunk)\<close>: the characters at the odd indices.\<close>

fun extractHex :: "string \<Rightarrow> string" where
  "extractHex (a # b # rest) = b # extractHex rest"
| "extractHex _ = []"

text \<open>\<open>#parseHex(raw)\<close>: \<open>NaN\<close> fails both comparisons and is returned unchanged.\<close>

definition parseHex :: "string \<Rightarrow> int option" where
  "parseHex raw = (case parseInt16 raw of
                     None \<Rightarrow> None
                   | Some data \<Rightarrow> Some (if data \<ge> 0x8000 then data - 0x10000 else data))"

text \<open>
  The wire form of a coordinate: each of the four digits in a byte of its own, behind a
  zero nibble. This is what \<open>moveTo\<close> writes for the four tilt digits (a \<open>0\<close> before
  each of \<open>tiltPos[0]\<close>, \<open>tiltPos[1]\<close>, \<open>tiltPos[2]\<close>, \<open>tiltPos[3]\<close>), with the
  white space removed as \<open>sendCommand\<close> does; the reply read by \<open>positionInquiry\<close>
  carries both coordinates in this form (\<open>0w 0w 0w 0w\<close>).
\<close>

definition expand :: "string \<Rightarrow> string" where
  "expand pos = strip_ws (''0'' @ template_index pos 0 @ '' 0'' @ template_index pos 1
                          @ '' 0'' @ template_index pos 2 @ '' 0'' @ template_index pos 3)"

section \<open>Frame encoder\<close>

text \<open>Each method below gives the command text it passes to \<open>sendCommand\<close>.\<close>

definition cancelCommand :: "int \<Rightarrow> string" where
  "cancelCommand socket =
     (let socket = (if socket < 1 then 1 else socket);
          socket = (if socket > 2 then 2 else socket);
          socketHex = padStart (toString16 socket) 2 CHR ''0''
      in ''8x 2'' @ socketHex @ '' FF'')"

definition powerOn :: string where "powerOn = ''81 01 04 00 02 FF''"
definition powerOff :: string where "powerOff = ''81 01 04 00 03 FF''"

definition exposureMode :: "int \<Rightarrow> string" where
  "exposureMode mode =
     (let mode = (if mode < 0 then 0 else mode);
          mode = (if mode > 3 then 3 else mode);
          b = (if mode = 0 then ''0''
               else if mode = 1 then ''3''
               else if mode = 2 then ''A''
               else if mode = 3 then ''B''
               else '''')
      in ''81 01 04 07 0'' @ b @ '' FF'')"

definition backlightOn :: string where "backlightOn = ''81 01 04 33 02 FF''"
definition backlightOff :: string where "backlightOff = ''81 01 04 33 03 FF''"

definition getPanSpeed :: "number \<Rightarrow> string" where
  "getPanSpeed speed =
     (let speed = (if Number_less speed (Number 1) then Number 1 else speed);
          speed = (if Number_less (Number 18) speed then Number 18 else speed)
      in padStart (Number_toString16 speed) 2 CHR ''0'')"

definition getTiltSpeed :: "number \<Rightarrow> string" where
  "getTiltSpeed speed =
     (let speed = (if Number_less speed (Number 1) then Number 1 else speed);
          speed = (if Number_less (Number 14) speed then Number 14 else speed)
      in padStart (Number_toString16 speed) 2 CHR ''0'')"

text \<open>\<open>move\<close>: a direction that matches no \<open>case\<close> falls out of the \<open>switch\<close>; the
  method then returns \<open>undefined\<close> without calling \<open>sendCommand\<close>, here \<open>None\<close>.\<close>

definition move :: "int \<Rightarrow> number \<Rightarrow> number \<Rightarrow> string option" where
  "move direction ps ts =
     (let panSpeed = getPanSpeed ps;
          tiltSpeed = getTiltSpeed ts;
          pre = ''81 01 06 01 '' @ panSpeed @ '' '' @ tiltSpeed
      in if direction = 0 then Some (pre @ '' 03 01 FF'')
         else if direction = 1 then Some (pre @ '' 03 02 FF'')
         else if direction = 2 then Some (pre @ '' 01 03 FF'')
         else if direction = 3 then Some (pre @ '' 02 03 FF'')
         else if direction = 4 then Some (pre @ '' 01 01 FF'')
         else if direction = 5 then Some (pre @ '' 02 01 FF'')
         else if direction = 6 then Some (pre @ '' 01 02 FF'')
         else if direction = 7 then Some (pre @ '' 02 02 FF'')
         else None)"

text \<open>\<open>Math.round\<close> on an integer-valued number.\<close>

definition Math_round :: "int \<Rightarrow> int" where
  "Math_round x = x"

text \<open>\<open>moveTo\<close>: the template reads \<open>panPos[0]\<close> twice and never \<open>panPos[1]\<close>; the
  tilt digits are read at 0, 1, 2, 3.\<close>

definition moveTo :: "number \<Rightarrow> number \<Rightarrow> int \<Rightarrow> int \<Rightarrow> bool \<Rightarrow> string" where
  "moveTo ps ts pan tilt relative =
     (let panSpeed = getPanSpeed ps;
          tiltSpeed = getTiltSpeed ts;
          x = Math_round pan;
          y = Math_round tilt;
          panPos = toHex x;
          tiltPos = toHex y;
          rel = (if relative then ''03'' else ''02'')
      in ''81 01 06 '' @ rel @ '' '' @ panSpeed @ '' '' @ tiltSpeed
         @ '' 0'' @ template_index panPos 0 @ '' 0'' @ template_index panPos 0
         @ '' 0'' @ template_index panPos 2 @ '' 0'' @ template_index panPos 3
         @ '' 0'' @ template_index tiltPos 0 @ '' 0'' @ template_index tiltPos 1
         @ '' 0'' @ template_index tiltPos 2 @ '' 0'' @ template_index tiltPos 3
         @ '' FF'')"

definition stop :: string where "stop = ''81 01 06 01 00 00 03 03 FF''"
definition home :: string where "home = ''81 01 06 04 FF''"
definition reset :: string where "reset = ''81 01 06 05 FF''"

text \<open>The bytes \<open>sendCommand\<close> hands to \<open>serial.write\<close> for a command text.\<close>

definition wire_bytes :: "string \<Rightarrow> byte list" where
  "wire_bytes cmd = Buffer_from_hex (strip_ws cmd)"

section \<open>Response decoder\<close>

text \<open>
  The values the methods produce: \<open>Response cmd\<close> is the object
  \<open>{ command: cmd, response: true }\<close> of a command whose write succeeded;
  \<open>VersionFields\<close> holds the four slices of the reply that \<open>versionInquiry\<close> hands to
  \<open>Number\<close> (the conversion itself is left out); \<open>PanTilt\<close> is the object
  \<open>{ pan, tilt }\<close>, with \<open>None\<close> for \<open>NaN\<close>.
\<close>

datatype js_value =
    Undefined
  | Null
  | Bool bool
  | Str string
  | Response string
  | VersionFields string string string string
  | PanTilt "int option" "int option"

text \<open>Each inquiry method is split at its \<open>await\<close>: the command text it sends, and
  the value it returns from \<open>res.response\<close>, the reply in hexadecimal text.\<close>

definition powerInquiry_command :: string where
  "powerInquiry_command = ''81 09 04 00 FF''"

definition powerInquiry :: "string \<Rightarrow> js_value" where
  "powerInquiry response =
     (let b = char_at response 5
      in if b = Some CHR ''2'' then Str ''On''
         else if b = Some CHR ''3'' then Str ''Off (standby)''
         else if b = Some CHR ''4'' then Str ''Internal power circuit error''
         else Str ''Unknown'')"

definition focusInquiry_command :: string where
  "focusInquiry_command = ''81 09 04 38 FF''"

definition focusInquiry :: "string \<Rightarrow> js_value" where
  "focusInquiry response =
     (let b = char_at response 5
      in if b = Some CHR ''2'' then Str ''Auto''
         else if b = Some CHR ''3'' then Str ''Manual''
         else Str ''Unknown'')"

definition whiteBalanceInquiry_command :: string where
  "whiteBalanceInquiry_command = ''81 09 04 35 FF''"

definition whiteBalanceInquiry :: "string \<Rightarrow> js_value" where
  "whiteBalanceInquiry response =
     (let b = char_at response 5
      in if b = Some CHR ''0'' then Str ''Auto''
         else if b = Some CHR ''1'' then Str ''In Door''
         else if b = Some CHR ''2'' then Str ''Out Door''
         else if b = Some CHR ''3'' then Str ''One Push WB''
         else if b = Some CHR ''5'' then Str ''Manual''
         else Str ''Unknown'')"

definition exposureInquiry_command :: string where
  "exposureInquiry_command = ''81 09 04 39 FF''"

definition exposureInquiry :: "string \<Rightarrow> js_value" where
  "exposureInquiry response =
     (let b = char_at response 5
      in if b = Some CHR ''0'' then Str ''Full Auto''
         else if b = Some CHR ''3'' then Str ''Manual''
         else if b = Some CHR ''A'' then Str ''Shutter Priority''
         else if b = Some CHR ''B'' then Str ''Iris Priority''
         else Str ''Unknown'')"

definition backlightInquiry_command :: string where
  "backlightInquiry_command = ''81 09 04 33 FF''"

definition backlightInquiry :: "string \<Rightarrow> js_value" where
  "backlightInquiry response =
     (let b = char_at response 5
      in if b = Some CHR ''2'' then Str ''On''
         else if b = Some CHR ''3'' then Str ''Off''
         else Str ''Unknown'')"

definition versionInquiry_command :: string where
  "versionInquiry_command = ''81 09 00 02 FF''"

definition versionInquiry :: "string \<Rightarrow> js_value" where
  "versionInquiry response =
     VersionFields (slice response 4 8) (slice response 8 12)
                   (slice response 12 16) (slice response 16 18)"

definition videoFormatInquiry_command :: string where
  "videoFormatInquiry_command = ''81 09 06 23 FF''"

definition videoFormatInquiry :: "string \<Rightarrow> js_value" where
  "videoFormatInquiry response =
     (let b = char_at response 5
      in if b = Some CHR ''1'' then Str ''1920x1080p/30''
         else if b = Some CHR ''2'' then Str ''1920x1080i/60''
         else if b = Some CHR ''3'' then Str ''1280x720p/60''
         else if b = Some CHR ''9'' then Str ''1920x1080p/25''
         else if b = Some CHR ''A'' then Str ''1920x1080i/50''
         else if b = Some CHR ''B'' then Str ''1280x720p/50''
         else if b = Some CHR ''D'' then Str []
         else Str ''Unknown'')"

definition positionInquiry_command :: string where
  "positionInquiry_command = ''81 09 06 12 FF''"

definition positionInquiry :: "string \<Rightarrow> js_value" where
  "positionInquiry response =
     (let pan = slice response 4 12;
          tilt = slice response 12 20;
          pan = extractHex pan;
          tilt = extractHex tilt
      in PanTilt (parseHex pan) (parseHex tilt))"

definition colorFormatInquiry_command :: string where
  "colorFormatInquiry_command = ''81 09 7E 01 03 FF''"

definition colorFormatInquiry :: "string \<Rightarrow> js_value" where
  "colorFormatInquiry response =
     (let b = char_at response 5
      in if b = Some CHR ''0'' then Str ''RGB''
         else if b = Some CHR ''1'' then Str ''YPbPr''
         else Str ''Unknown'')"

section \<open>Session and request/response correlation\<close>

text \<open>The methods of the class, with their arguments.\<close>

datatype operation =
    CancelCommand int
  | PowerOn
  | PowerOff
  | ExposureMode int
  | ToggleBacklight
  | BacklightOn
  | BacklightOff
  | Move int number number
  | MoveTo number number int int bool
  | Stop
  | Home
  | Reset
  | PowerInquiry
  | ZoomPosInquiry
  | FocusInquiry
  | WhiteBalanceInquiry
  | ExposureInquiry
  | ShutterPosInquiry
  | IrisPosInquiry
  | BacklightInquiry
  | VersionInquiry
  | VideoFormatInquiry
  | PositionInquiry
  | ColorFormatInquiry

text \<open>The inquiries that wait for a reply, each with the code that runs after its
  \<open>await\<close>.\<close>

datatype inquiry =
    AwaitPower
  | AwaitFocus
  | AwaitWhiteBalance
  | AwaitExposure
  | AwaitBacklight
  | AwaitVersion
  | AwaitVideoFormat
  | AwaitPosition
  | AwaitColorFormat

fun resume :: "inquiry \<Rightarrow> string \<Rightarrow> js_value" where
  "resume AwaitPower r = powerInquiry r"
| "resume AwaitFocus r = focusInquiry r"
| "resume AwaitWhiteBalance r = whiteBalanceInquiry r"
| "resume AwaitExposure r = exposureInquiry r"
| "resume AwaitBacklight r = backlightInquiry r"
| "resume AwaitVersion r = versionInquiry r"
| "resume AwaitVideoFormat r = videoFormatInquiry r"
| "resume AwaitPosition r = positionInquiry r"
| "resume AwaitColorFormat r = colorFormatInquiry r"

text \<open>
  The call \<open>sendCommand(cmd, inquiry)\<close> a method makes: the command text, and for
  \<open>inquiry = true\<close> the continuation that waits for the reply. \<open>None\<close>: the method
  returns without calling \<open>sendCommand\<close>.
\<close>

fun request :: "operation \<Rightarrow> (string \<times> inquiry option) option" where
  "request (CancelCommand socket) = Some (cancelCommand socket, None)"
| "request PowerOn = Some (powerOn, None)"
| "request PowerOff = Some (powerOff, None)"
| "request (ExposureMode mode) = Some (exposureMode mode, None)"
| "request ToggleBacklight = None"
| "request BacklightOn = Some (backlightOn, None)"
| "request BacklightOff = Some (backlightOff, None)"
| "request (Move direction ps ts) =
     (case move direction ps ts of None \<Rightarrow> None | Some cmd \<Rightarrow> Some (cmd, None))"
| "request (MoveTo ps ts pan tilt relative) = Some (moveTo ps ts pan tilt relative, None)"
| "request Stop = Some (stop, None)"
| "request Home = Some (home, None)"
| "request Reset = Some (reset, None)"
| "request PowerInquiry = Some (powerInquiry_command, Some AwaitPower)"
| "request ZoomPosInquiry = None"
| "request FocusInquiry = Some (focusInquiry_command, Some AwaitFocus)"
| "request WhiteBalanceInquiry = Some (whiteBalanceInquiry_command, Some AwaitWhiteBalance)"
| "request ExposureInquiry = Some (exposureInquiry_command, Some AwaitExposure)"
| "request ShutterPosInquiry = None"
| "request IrisPosInquiry = None"
| "request BacklightInquiry = Some (backlightInquiry_command, Some AwaitBacklight)"
| "request VersionInquiry = Some (versionInquiry_command, Some AwaitVersion)"
| "request VideoFormatInquiry = Some (videoFormatInquiry_command, Some AwaitVideoFormat)"
| "request PositionInquiry = Some (positionInquiry_command, Some AwaitPosition)"
| "request ColorFormatInquiry = Some (colorFormatInquiry_command, Some AwaitColorFormat)"

text \<open>
  How a call ends: \<open>Returned v\<close> is a plain return value that is no promise,
  \<open>Fulfilled v\<close> a promise resolved with \<open>v\<close>, \<open>Rejected cmd\<close> a promise rejected
  with \<open>{ command: cmd, response: err }\<close>.
\<close>

datatype outcome = Returned js_value | Fulfilled js_value | Rejected string

text \<open>The methods that never call \<open>sendCommand\<close>: \<open>toggleBacklight\<close> has an empty
  body, \<open>move\<close> falls out of its \<open>switch\<close>, and the three \<open>async\<close> stubs return
  \<open>null\<close>.\<close>

fun immediate :: "operation \<Rightarrow> outcome" where
  "immediate ZoomPosInquiry = Fulfilled Null"
| "immediate ShutterPosInquiry = Fulfilled Null"
| "immediate IrisPosInquiry = Fulfilled Null"
| "immediate _ = Returned Undefined"

text \<open>
  The object: the state fields the constructor sets, and what the model needs of the
  serial port, the event emitter and the promises. Calls are numbered in the order they
  are made. \<open>written\<close> lists the buffers handed to \<open>serial.write\<close>;
  \<open>write_callbacks\<close> the writes whose callback has not run yet, oldest first;
  \<open>data_listeners\<close> the listeners armed by \<open>this.once('data', ...)\<close>, in the order
  they were armed; \<open>settled\<close> the calls that have ended, in the order they ended.
\<close>

record Huddlecam =
  power :: js_value
  backlight :: js_value
  position :: js_value
  focus :: js_value
  whiteBalance :: js_value
  exposure :: js_value
  shutterPos :: js_value
  irisPos :: js_value
  videoFormat :: js_value
  panTiltPos :: js_value
  colorFormat :: js_value
  written :: "byte list list"
  write_callbacks :: "(nat \<times> string \<times> inquiry option) list"
  data_listeners :: "(nat \<times> inquiry) list"
  settled :: "(nat \<times> outcome) list"
  calls :: nat

definition constructor :: Huddlecam where
  "constructor =
     \<lparr> power = Str ''Unknown'', backlight = Bool False, position = Null,
       focus = Str ''Unknown'', whiteBalance = Str ''Unknown'', exposure = Str ''Unknown'',
       shutterPos = Null, irisPos = Null, videoFormat = Str ''Unknown'',
       panTiltPos = Null, colorFormat = Str ''Unknown'',
       written = [], write_callbacks = [], data_listeners = [], settled = [], calls = 0 \<rparr>"

text \<open>
  A method call. A method that reaches \<open>sendCommand\<close> writes its buffer to the port
  at once, whatever else is in flight; the promise stays pending until the write
  callback runs.
\<close>

definition call :: "operation \<Rightarrow> Huddlecam \<Rightarrow> Huddlecam" where
  "call opn s =
     (case request opn of
        None \<Rightarrow> s\<lparr> settled := settled s @ [(calls s, immediate opn)], calls := calls s + 1 \<rparr>
      | Some (cmd, inq) \<Rightarrow>
          s\<lparr> written := written s @ [wire_bytes cmd],
             write_callbacks := write_callbacks s @ [(calls s, cmd, inq)],
             calls := calls s + 1 \<rparr>)"

text \<open>
  The callback of the oldest unfinished write, with or without an error: an error
  rejects; a command resolves with \<open>true\<close>; an inquiry arms a one-shot listener for the
  next \<open>data\<close> event.
\<close>

definition write_callback :: "bool \<Rightarrow> Huddlecam \<Rightarrow> Huddlecam" where
  "write_callback err s =
     (case write_callbacks s of
        [] \<Rightarrow> s
      | (i, cmd, inq) # rest \<Rightarrow>
          if err then s\<lparr> write_callbacks := rest, settled := settled s @ [(i, Rejected cmd)] \<rparr>
          else (case inq of
                  Some k \<Rightarrow> s\<lparr> write_callbacks := rest,
                               data_listeners := data_listeners s @ [(i, k)] \<rparr>
                | None \<Rightarrow> s\<lparr> write_callbacks := rest,
                             settled := settled s @ [(i, Fulfilled (Response cmd))] \<rparr>))"

text \<open>
  A \<open>data\<close> event of the port, forwarded by \<open>this.emit('data', data)\<close>: every listener
  armed with \<open>once\<close> is removed and called with the same buffer, in the order of
  arming; each resolves its promise, and the inquiry method returns its decoded value.
\<close>

definition data_event :: "byte list \<Rightarrow> Huddlecam \<Rightarrow> Huddlecam" where
  "data_event d s =
     s\<lparr> data_listeners := [],
        settled := settled s
                   @ map (\<lambda>(i, k). (i, Fulfilled (resume k (Buffer_toString_hex d))))
                         (data_listeners s) \<rparr>"

datatype event = Call operation | WriteCallback bool | Data "byte list"

fun step :: "event \<Rightarrow> Huddlecam \<Rightarrow> Huddlecam" where
  "step (Call opn) s = call opn s"
| "step (WriteCallback err) s = write_callback err s"
| "step (Data d) s = data_event d s"

definition run :: "event list \<Rightarrow> Huddlecam \<Rightarrow> Huddlecam" where
  "run evs s = foldl (\<lambda>s e. step e s) s evs"

text \<open>
  The states reached when the caller awaits every call: a method is called only while
  no write and no reply is outstanding.
\<close>

inductive awaited :: "Huddlecam \<Rightarrow> bool" where
  start: "awaited constructor"
| submit: "awaited s \<Longrightarrow> write_callbacks s = [] \<Longrightarrow> data_listeners s = []
             \<Longrightarrow> awaited (step (Call opn) s)"
| written_back: "awaited s \<Longrightarrow> awaited (step (WriteCallback err) s)"
| received: "awaited s \<Longrightarrow> awaited (step (Data d) s)"

text \<open>Two inquiries called one after the other with no \<open>await\<close> between them, and
  both write callbacks run without an error.\<close>

definition back_to_back :: Huddlecam where
  "back_to_back =
     run [Call PowerInquiry, Call FocusInquiry, WriteCallback False, WriteCallback False]
         constructor"

text \<open>
  The invariant of a frame: the command text, white space removed, is an even number of
  hexadecimal digits, and the buffer written to the port ends with the terminator
  \<open>0xFF\<close>.
\<close>

definition frame_invariant :: "string \<Rightarrow> bool" where
  "frame_invariant cmd =
     (even (length (strip_ws cmd)) \<and> list_all is_hex (strip_ws cmd)
      \<and> wire_bytes cmd \<noteq> [] \<and> last (wire_bytes cmd) = 0xFF)"

text \<open>
  The value a speed has after it is clamped to \<open>[lo, hi]\<close>, when that value is an
  integer: every number below \<open>lo\<close> or above \<open>hi\<close>, the infinities among them, and
  every integer between. \<open>None\<close> for \<open>NaN\<close> and for a number between the bounds that
  is no integer.
\<close>

definition clamped_integer :: "int \<Rightarrow> int \<Rightarrow> number \<Rightarrow> int option" where
  "clamped_integer lo hi x =
     (case x of
        NaN \<Rightarrow> None
      | PosInfinity \<Rightarrow> Some hi
      | NegInfinity \<Rightarrow> Some lo
      | Finite m k \<Rightarrow>
          if m < lo * 2 ^ k then Some lo
          else if hi * 2 ^ k < m then Some hi
          else if 2 ^ k dvd m then Some (m div 2 ^ k)
          else None)"

section \<open>Hexadecimal text\<close>

lemma less_16_cases: "(d::nat) < 16 \<Longrightarrow> d \<in> {0,1,2,3,4,5,6,7,8,9,10,11,12,13,14,15}"
  by auto arith

lemma digit_val_hex_digit: "d < 16 \<Longrightarrow> digit_val (hex_digit d) = Some d"
  using less_16_cases[of d] by (auto simp: digit_val_def hex_digit_def)

lemma is_hex_hex_digit: "d < 16 \<Longrightarrow> is_hex (hex_digit d)"
  by (simp add: is_hex_def digit_val_hex_digit)

lemma is_hex_not_ws: "is_hex c \<Longrightarrow> \<not> is_ws c"
  by (auto simp: is_hex_def is_ws_def digit_val_def Let_def split: if_splits)

lemma hex_of_nat_small: "n < 16 \<Longrightarrow> hex_of_nat n = [hex_digit n]"
  by (simp add: hex_of_nat.simps)

lemma hex_of_nat_large: "16 \<le> n \<Longrightarrow> hex_of_nat n = hex_of_nat (n div 16) @ [hex_digit (n mod 16)]"
  by (subst hex_of_nat.simps) simp

lemma hex_of_nat_all_hex: "list_all is_hex (hex_of_nat n)"
proof (induction n rule: hex_of_nat.induct)
  case (1 n)
  show ?case
  proof (cases "n < 16")
    case True
    then show ?thesis by (simp add: hex_of_nat_small is_hex_hex_digit)
  next
    case False
    with 1 show ?thesis by (simp add: hex_of_nat_large is_hex_hex_digit)
  qed
qed

lemma replicate_small:
  "replicate 2 c = [c, c]" "replicate 3 c = [c, c, c]"
  by (simp_all add: numeral_2_eq_2 numeral_3_eq_3)

lemma two_digits:
  assumes "n < 256"
  shows "padStart (hex_of_nat n) 2 CHR ''0'' = [hex_digit (n div 16), hex_digit (n mod 16)]"
proof (cases "n < 16")
  case True
  then show ?thesis by (simp add: hex_of_nat_small padStart_def hex_digit_def replicate_small)
next
  case False
  with assms have "n div 16 < 16" by simp
  with False show ?thesis by (simp add: hex_of_nat_large hex_of_nat_small padStart_def)
qed

lemma three_digits_raw:
  assumes "256 \<le> n" "n < 4096"
  shows "hex_of_nat n = [hex_digit (n div 256), hex_digit (n div 16 mod 16), hex_digit (n mod 16)]"
proof -
  from assms have a: "16 \<le> n" "16 \<le> n div 16" "n div 16 div 16 < 16" by simp_all
  then show ?thesis
    by (simp add: hex_of_nat_large[of n] hex_of_nat_large[of "n div 16"] hex_of_nat_small div_mult2_eq[symmetric])
qed

lemma four_digits:
  assumes "n < 65536"
  shows "padStart (hex_of_nat n) 4 CHR ''0'' =
           [hex_digit (n div 4096), hex_digit (n div 256 mod 16),
            hex_digit (n div 16 mod 16), hex_digit (n mod 16)]"
proof -
  consider "n < 16" | "16 \<le> n" "n < 256" | "256 \<le> n" "n < 4096" | "4096 \<le> n" by linarith
  then show ?thesis
  proof cases
    case 1
    then show ?thesis by (simp add: hex_of_nat_small padStart_def hex_digit_def replicate_small)
  next
    case 2
    then have "n div 16 < 16" by simp
    with 2 show ?thesis by (simp add: hex_of_nat_large hex_of_nat_small padStart_def hex_digit_def replicate_small)
  next
    case 3
    then show ?thesis by (simp add: three_digits_raw padStart_def hex_digit_def replicate_small)
  next
    case 4
    with assms have a: "16 \<le> n" "256 \<le> n div 16" "n div 16 < 4096" by simp_all
    then show ?thesis
      by (simp add: hex_of_nat_large[of n] three_digits_raw padStart_def div_mult2_eq[symmetric])
  qed
qed

lemma is_hex_simps: "\<not> is_hex CHR ''-''" "\<not> is_hex CHR ''+''" "\<not> is_hex CHR ''x''" "\<not> is_hex CHR ''X''" "is_hex CHR ''0''" "\<not> is_hex CHR '' ''"
  by (simp_all add: is_hex_def digit_val_def)

lemma expand_four:
  assumes "\<not> is_ws a" "\<not> is_ws b" "\<not> is_ws c" "\<not> is_ws d"
  shows "expand [a, b, c, d] = [CHR ''0'', a, CHR ''0'', b, CHR ''0'', c, CHR ''0'', d]"
  using assms by (simp add: expand_def strip_ws_def template_index_def is_ws_def)

lemma parseInt16_four:
  assumes "is_hex a" "is_hex b" "is_hex c" "is_hex d"
  shows "parseInt16 [a, b, c, d] = Some (int (hex_value [a, b, c, d]))"
proof -
  have "\<not> is_ws a" using assms by (simp add: is_hex_not_ws)
  moreover have "a \<noteq> CHR ''-''" "a \<noteq> CHR ''+''" "b \<noteq> CHR ''x''" "b \<noteq> CHR ''X''"
    using assms is_hex_simps by auto
  ultimately show ?thesis using assms
    by (simp add: parseInt16_def Let_def)
qed

lemma digits_sum:
  fixes n :: nat
  assumes "n < 65536"
  shows "16 * (16 * (16 * (n div 4096) + n div 256 mod 16) + n div 16 mod 16) + n mod 16 = n"
proof -
  have a: "n div 4096 = n div 256 div 16" "n div 256 = n div 16 div 16"
    by (simp_all add: div_mult2_eq[symmetric])
  show ?thesis unfolding a
    by (metis (no_types) mult_div_mod_eq)
qed

lemma hex_value_four_digits:
  assumes "n < 65536"
  shows "hex_value [hex_digit (n div 4096), hex_digit (n div 256 mod 16),
                    hex_digit (n div 16 mod 16), hex_digit (n mod 16)] = n"
proof -
  from assms have "n div 4096 < 16" by simp
  then show ?thesis using digits_sum[OF assms]
    by (simp add: hex_value_def digit_val_hex_digit)
qed

lemma neg_mod_65536: "- 65536 \<le> (v::int) \<Longrightarrow> v < 0 \<Longrightarrow> v mod 65536 = v + 65536"
  by (subst mod_add_self2[symmetric], rule mod_pos_pos_trivial) auto

lemma toHex_in_range:
  assumes "- 65536 \<le> v" "v < 65536"
  shows "toHex v = (let n = nat (v mod 65536) in
           [hex_digit (n div 4096), hex_digit (n div 256 mod 16),
            hex_digit (n div 16 mod 16), hex_digit (n mod 16)])"
proof (cases "v < 0")
  case True
  with assms have "v mod 65536 = v + 65536"
    by (simp add: neg_mod_65536)
  moreover from True assms have "nat (v + 65536) < 65536" by simp
  ultimately show ?thesis using True assms
    by (simp add: toHex_def toString16_def four_digits Let_def)
next
  case False
  with assms have "v mod 65536 = v" by simp
  moreover from False assms have "nat v < 65536" by simp
  ultimately show ?thesis using False
    by (simp add: toHex_def toString16_def four_digits Let_def)
qed

lemma digit_val_chars:
  "digit_val CHR ''0'' = Some 0" "digit_val CHR ''1'' = Some 1" "digit_val CHR ''2'' = Some 2"
  "digit_val CHR ''3'' = Some 3" "digit_val CHR ''4'' = Some 4" "digit_val CHR ''5'' = Some 5"
  "digit_val CHR ''6'' = Some 6" "digit_val CHR ''7'' = Some 7" "digit_val CHR ''8'' = Some 8"
  "digit_val CHR ''9'' = Some 9" "digit_val CHR ''A'' = Some 10" "digit_val CHR ''B'' = Some 11"
  "digit_val CHR ''E'' = Some 14" "digit_val CHR ''F'' = Some 15" "digit_val CHR ''x'' = None"
  "digit_val CHR ''-'' = None"
  by (simp_all add: digit_val_def)

lemma strip_ws_append: "strip_ws (a @ b) = strip_ws a @ strip_ws b"
  by (simp add: strip_ws_def)

lemma strip_ws_Cons: "strip_ws (c # s) = (if is_ws c then strip_ws s else c # strip_ws s)"
  by (simp add: strip_ws_def)

lemma strip_ws_Nil: "strip_ws [] = []"
  by (simp add: strip_ws_def)

lemma is_ws_chars:
  "is_ws CHR '' ''" "\<not> is_ws CHR ''0''" "\<not> is_ws CHR ''1''" "\<not> is_ws CHR ''2''"
  "\<not> is_ws CHR ''3''" "\<not> is_ws CHR ''4''" "\<not> is_ws CHR ''5''" "\<not> is_ws CHR ''6''"
  "\<not> is_ws CHR ''7''" "\<not> is_ws CHR ''8''" "\<not> is_ws CHR ''9''" "\<not> is_ws CHR ''A''"
  "\<not> is_ws CHR ''B''" "\<not> is_ws CHR ''E''" "\<not> is_ws CHR ''F''" "\<not> is_ws CHR ''x''"
  "\<not> is_ws CHR ''-''"
  by (simp_all add: is_ws_def)

lemma is_ws_hex_digit: "d < 16 \<Longrightarrow> \<not> is_ws (hex_digit d)"
  by (simp add: is_hex_hex_digit is_hex_not_ws)

lemma Number_less_Number:
  "Number_less (Finite m k) (Number n) = (m < n * 2 ^ k)"
  "Number_less (Number n) (Finite m k) = (n * 2 ^ k < m)"
  "Number_less (Number a) (Number b) = (a < b)"
  "Number_less PosInfinity (Number n) = False" "Number_less (Number n) PosInfinity = True"
  "Number_less NegInfinity (Number n) = True" "Number_less (Number n) NegInfinity = False"
  "Number_less NaN (Number n) = False" "Number_less (Number n) NaN = False"
  by (simp_all add: Number_def)

lemma Number_toString16_Number:
  "0 \<le> n \<Longrightarrow> Number_toString16 (Number n) = hex_of_nat (nat n)"
  by (simp add: Number_def)

lemma Number_toString16_integer:
  assumes "0 \<le> m" "2 ^ k dvd m"
  shows "Number_toString16 (Finite m k) = hex_of_nat (nat (m div 2 ^ k))"
proof -
  from assms obtain q where q: "m = 2 ^ k * q" "0 \<le> q"
    by (auto simp: dvd_def zero_le_mult_iff)
  then have "nat \<bar>m\<bar> = 2 ^ k * nat q"
    by (simp add: nat_mult_distrib nat_power_eq abs_mult)
  then have "nat \<bar>m\<bar> div 2 ^ k = nat q" "nat \<bar>m\<bar> mod 2 ^ k = 0" by simp_all
  moreover have "m div 2 ^ k = q" using q by simp
  moreover have "\<not> m < 0" using assms by simp
  ultimately show ?thesis by simp
qed

text \<open>The digits after the point are complete: more steps than \<open>k\<close> add nothing.\<close>

lemma frac_digits_done:
  "f < 2 ^ k \<Longrightarrow> 16 ^ n * f mod 2 ^ k = 0 \<Longrightarrow> frac_digits (n + j) f k = frac_digits n f k"
proof (induction n arbitrary: f)
  case 0
  then have "f = 0" by simp
  then show ?case by (cases j) simp_all
next
  case (Suc n)
  have "16 ^ n * (16 * f mod 2 ^ k) mod 2 ^ k = 16 ^ Suc n * f mod 2 ^ k"
    by (simp add: mod_mult_right_eq ac_simps)
  with Suc.prems have "16 ^ n * (16 * f mod 2 ^ k) mod 2 ^ k = 0" by simp
  moreover have "16 * f mod 2 ^ k < 2 ^ k" by simp
  ultimately have "frac_digits (n + j) (16 * f mod 2 ^ k) k = frac_digits n (16 * f mod 2 ^ k) k"
    by (rule Suc.IH[rotated])
  then show ?case by simp
qed

lemma frac_digits_fuel:
  assumes "f < 2 ^ k"
  shows "frac_digits (k + j) f k = frac_digits k f k"
proof -
  have "(2::nat) ^ k dvd 16 ^ k"
    using power_mono[of 2 16 k] le_imp_power_dvd[of k "4 * k" "2::nat"]
    by (simp add: power_mult)
  then have "16 ^ k * f mod 2 ^ k = 0" by (simp add: mod_eq_0_iff_dvd)
  with assms show ?thesis by (rule frac_digits_done)
qed

lemma clamped_speed_text:
  assumes "clamped_integer 1 hi x = Some p" "1 \<le> hi"
  shows "1 \<le> p \<and> p \<le> hi
       \<and> Number_toString16
            (if Number_less (Number hi) (if Number_less x (Number 1) then Number 1 else x)
             then Number hi
             else (if Number_less x (Number 1) then Number 1 else x))
           = hex_of_nat (nat p)"
proof (cases x)
  case (Finite m k)
  have pos: "(0::int) < 2 ^ k" by simp
  consider "m < 2 ^ k" | "hi * 2 ^ k < m" | "\<not> m < 2 ^ k" "\<not> hi * 2 ^ k < m" by blast
  then show ?thesis
  proof cases
    case 1
    with assms Finite show ?thesis
      by (simp add: clamped_integer_def Number_less_Number Number_toString16_Number)
  next
    case 2
    have "(1::int) * 2 ^ k \<le> hi * 2 ^ k" using assms(2) by (intro mult_right_mono) simp_all
    with 2 have "\<not> m < 2 ^ k" by linarith
    with 2 assms Finite show ?thesis
      by (simp add: clamped_integer_def Number_less_Number Number_toString16_Number)
  next
    case 3
    with assms Finite have d: "2 ^ k dvd m" and p: "p = m div 2 ^ k"
      by (auto simp: clamped_integer_def split: if_splits)
    from d p have m: "m = p * 2 ^ k" by simp
    from 3 m have "1 \<le> p" "p \<le> hi" using pos by (simp_all add: mult_le_cancel_right)
    moreover from 3 have "0 \<le> m" using pos by linarith
    ultimately show ?thesis using 3 Finite d p
      by (simp add: Number_less_Number Number_toString16_integer
            del: Number_toString16.simps)
  qed
next
  case NaN
  with assms show ?thesis by (simp add: clamped_integer_def)
next
  case PosInfinity
  with assms show ?thesis
    by (simp add: clamped_integer_def Number_less_Number Number_toString16_Number)
next
  case NegInfinity
  with assms show ?thesis
    by (simp add: clamped_integer_def Number_less_Number Number_toString16_Number)
qed

lemma getPanSpeed_digits:
  assumes "clamped_integer 1 18 ps = Some p"
  shows "getPanSpeed ps = [hex_digit (nat p div 16), hex_digit (nat p mod 16)]"
    and "1 \<le> p" and "p \<le> 18"
proof -
  from clamped_speed_text[OF assms] have p: "1 \<le> p" "p \<le> 18" by simp_all
  then have "nat p < 256" by simp
  then show "getPanSpeed ps = [hex_digit (nat p div 16), hex_digit (nat p mod 16)]"
    using clamped_speed_text[OF assms] by (simp add: getPanSpeed_def Let_def two_digits)
  show "1 \<le> p" "p \<le> 18" by (rule p)+
qed

lemma getTiltSpeed_digits:
  assumes "clamped_integer 1 14 ts = Some t"
  shows "getTiltSpeed ts = [hex_digit (nat t div 16), hex_digit (nat t mod 16)]"
    and "1 \<le> t" and "t \<le> 14"
proof -
  from clamped_speed_text[OF assms] have t: "1 \<le> t" "t \<le> 14" by simp_all
  then have "nat t < 256" by simp
  then show "getTiltSpeed ts = [hex_digit (nat t div 16), hex_digit (nat t mod 16)]"
    using clamped_speed_text[OF assms] by (simp add: getTiltSpeed_def Let_def two_digits)
  show "1 \<le> t" "t \<le> 14" by (rule t)+
qed

lemma clamped_integer_Number: "clamped_integer lo hi (Number n) =
    Some (if n < lo then lo else if hi < n then hi else n)"
  by (simp add: clamped_integer_def Number_def)

lemma moveTo_speed_bytes:
  assumes "clamped_integer 1 18 ps = Some p" "clamped_integer 1 14 ts = Some t"
  shows "take 6 (wire_bytes (moveTo ps ts pan tilt relative)) =
     [0x81, 0x01, 0x06, if relative then 0x03 else 0x02, word_of_int p, word_of_int t]"
proof -
  note P = getPanSpeed_digits[OF assms(1)] and T = getTiltSpeed_digits[OF assms(2)]
  have a: "nat p div 16 < 16" "nat t div 16 < 16" using P(3) T(3) by simp_all
  have b: "word_of_nat (nat p) = (word_of_int p :: byte)"
          "word_of_nat (nat t) = (word_of_int t :: byte)"
    using P(2) T(2) by (simp_all add: of_nat_nat)
  show ?thesis
    unfolding wire_bytes_def moveTo_def Let_def Math_round_def P(1) T(1)
    by (simp add: strip_ws_append strip_ws_Cons strip_ws_Nil is_ws_chars is_ws_hex_digit
          digit_val_chars digit_val_hex_digit a b)
qed

lemma digit_val_lower:
  "digit_val CHR ''a'' = Some 10" "digit_val CHR ''b'' = Some 11" "digit_val CHR ''c'' = Some 12"
  "digit_val CHR ''d'' = Some 13" "digit_val CHR ''e'' = Some 14" "digit_val CHR ''f'' = Some 15"
  by (simp_all add: digit_val_def)

lemma is_ws_lower:
  "\<not> is_ws CHR ''a''" "\<not> is_ws CHR ''b''" "\<not> is_ws CHR ''c''"
  "\<not> is_ws CHR ''d''" "\<not> is_ws CHR ''e''" "\<not> is_ws CHR ''f''"
  by (simp_all add: is_ws_def)

lemma toHex_examples: "toHex 1008 = ''03f0''" "toHex 228 = ''00e4''"
  by (simp_all add: toHex_in_range hex_digit_def)

lemma speed_examples:
  "getPanSpeed (Number 3) = ''03''" "getTiltSpeed (Number 3) = ''03''"
  "getPanSpeed (Number 30) = ''12''" "getTiltSpeed (Number 20) = ''0e''"
  by (simp_all add: getPanSpeed_digits(1)[of _ 3] getPanSpeed_digits(1)[of _ 18]
        getTiltSpeed_digits(1)[of _ 3] getTiltSpeed_digits(1)[of _ 14]
        clamped_integer_Number hex_digit_def)

lemma move_speed_bytes:
  assumes "clamped_integer 1 18 ps = Some p" "clamped_integer 1 14 ts = Some t"
  shows "map_option (take 6 \<circ> wire_bytes) (move d ps ts) =
     (if 0 \<le> d \<and> d \<le> 7
      then Some [0x81, 0x01, 0x06, 0x01, word_of_int p, word_of_int t]
      else None)"
proof -
  note P = getPanSpeed_digits[OF assms(1)] and T = getTiltSpeed_digits[OF assms(2)]
  have a: "nat p div 16 < 16" "nat t div 16 < 16" using P(3) T(3) by simp_all
  have b: "word_of_nat (nat p) = (word_of_int p :: byte)"
          "word_of_nat (nat t) = (word_of_int t :: byte)"
    using P(2) T(2) by (simp_all add: of_nat_nat)
  have d: "d < 0 \<or> d = 0 \<or> d = 1 \<or> d = 2 \<or> d = 3 \<or> d = 4 \<or> d = 5 \<or> d = 6 \<or> d = 7 \<or> 7 < d"
    by arith
  show ?thesis
    using d unfolding move_def Let_def P(1) T(1) wire_bytes_def
    by (elim disjE)
       (simp_all add: strip_ws_append strip_ws_Cons strip_ws_Nil is_ws_chars is_ws_hex_digit
          digit_val_chars digit_val_hex_digit a b)
qed

text \<open>Whatever the speeds, the buffer of a \<open>move\<close> begins with the four bytes in front
  of them.\<close>

lemma move_header:
  assumes "move d ps ts = Some cmd"
  shows "take 4 (wire_bytes cmd) = [0x81, 0x01, 0x06, 0x01]"
proof -
  from assms obtain rest where "cmd = ''81 01 06 01 '' @ rest"
    by (auto simp: move_def Let_def split: if_splits)
  then show ?thesis
    by (simp add: wire_bytes_def strip_ws_Cons is_ws_chars digit_val_chars)
qed

lemma cancelCommand_clamp: "cancelCommand socket = cancelCommand (max 1 (min 2 socket))"
  by (simp add: cancelCommand_def max_def min_def)

lemma cancelCommand_frames: "cancelCommand 1 = ''8x 201 FF''" "cancelCommand 2 = ''8x 202 FF''"
  by (simp_all add: cancelCommand_def toString16_def hex_of_nat_small padStart_def hex_digit_def)

lemma cancelCommand_cases:
  "cancelCommand socket = (if socket \<le> 1 then ''8x 201 FF'' else ''8x 202 FF'')"
proof -
  have "max 1 (min 2 socket) = (if socket \<le> 1 then 1 else 2)" by auto
  then show ?thesis using cancelCommand_clamp[of socket] by (simp add: cancelCommand_frames)
qed

section \<open>Coordinate codec: round trip\<close>

text \<open>
  Claim C3. For every signed 16-bit integer \<open>v\<close>, decoding the nibble-expanded wire
  form of the encoded coordinate gives \<open>v\<close> back:
  \<open>parseHex (extractHex (expand (toHex v))) = v\<close>. On the way, \<open>toHex v\<close> is exactly
  four characters, \<open>extractHex\<close> recovers them from the wire form, and \<open>parseInt\<close>
  reads them as the unsigned 16-bit value \<open>v mod 0x10000\<close>, which \<open>parseHex\<close> maps
  back to the signed one.
\<close>

theorem coordinate_round_trip:
  assumes "- 32768 \<le> v" "v \<le> 32767"
  shows "length (toHex v) = 4
       \<and> extractHex (expand (toHex v)) = toHex v
       \<and> parseInt16 (toHex v) = Some (v mod 0x10000)
       \<and> parseHex (extractHex (expand (toHex v))) = Some v"
proof -
  define n where "n = nat (v mod 65536)"
  have n: "n < 65536" by (simp add: n_def)
  have nv: "int n = v mod 65536" by (simp add: n_def)
  define a b c d where "a = hex_digit (n div 4096)" and "b = hex_digit (n div 256 mod 16)"
    and "c = hex_digit (n div 16 mod 16)" and "d = hex_digit (n mod 16)"
  from n have "n div 4096 < 16" by simp
  then have hx: "is_hex a" "is_hex b" "is_hex c" "is_hex d"
    by (simp_all add: a_def b_def c_def d_def is_hex_hex_digit)
  have t: "toHex v = [a, b, c, d]"
    using assms by (simp add: toHex_in_range Let_def n_def a_def b_def c_def d_def)
  have e: "extractHex (expand [a, b, c, d]) = [a, b, c, d]"
    using hx by (simp add: expand_four is_hex_not_ws)
  have p: "parseInt16 [a, b, c, d] = Some (int n)"
    using hx hex_value_four_digits[OF n] by (simp add: parseInt16_four a_def b_def c_def d_def)
  have r: "parseHex [a, b, c, d] = Some v"
  proof (cases "v < 0")
    case True
    with assms have "v mod 65536 = v + 65536" by (simp add: neg_mod_65536)
    with True assms show ?thesis by (simp add: p parseHex_def nv)
  next
    case False
    with assms have "v mod 65536 = v" by simp
    with False assms show ?thesis by (simp add: p parseHex_def nv)
  qed
  show ?thesis
    by (simp add: t e p r nv)
qed

theorem coordinate_round_trip_witness:
  "parseHex (extractHex (expand (toHex (- 2224)))) = Some (- 2224)"
  by (rule coordinate_round_trip [of "- 2224", THEN conjunct2, THEN conjunct2, THEN conjunct2])
     simp_all

section \<open>Frame encoder: clamped parameters\<close>

text \<open>
  Claim C7 as stated fails. A pan speed of 2.5 is inside \<open>[1, 18]\<close>, so it is passed
  on as it is and rendered with a point: \<open>getPanSpeed\<close> gives the three characters
  \<open>2.8\<close>, which are not two hexadecimal digits, and the buffer written for
  \<open>move(0, 2.5, 3)\<close> ends after its fourth byte, with no speed in it. \<open>NaN\<close> fails
  both comparisons and is rendered as the text \<open>NaN\<close>.
\<close>

theorem fractional_speed_counterexample:
  "getPanSpeed (Finite 5 1) = ''2.8''
 \<and> getPanSpeed NaN = ''NaN''
 \<and> move 0 (Finite 5 1) (Number 3) = Some ''81 01 06 01 2.8 03 03 01 FF''
 \<and> map_option wire_bytes (move 0 (Finite 5 1) (Number 3)) = Some [0x81, 0x01, 0x06, 0x01]"
proof -
  have t: "Number_toString16 (Finite 5 1) = ''2.8''"
    by (simp add: hex_of_nat_small hex_digit_def)
  have l: "Number_less (Finite 5 1) (Number 1) = False"
          "Number_less (Number 18) (Finite 5 1) = False"
    by (simp_all add: Number_less_Number)
  have g: "getPanSpeed (Finite 5 1) = ''2.8''"
    by (simp add: getPanSpeed_def t l padStart_def del: Number_toString16.simps One_nat_def)
  have m: "move 0 (Finite 5 1) (Number 3) = Some ''81 01 06 01 2.8 03 03 01 FF''"
    by (simp add: move_def g speed_examples del: One_nat_def)
  have "wire_bytes ''81 01 06 01 2.8 03 03 01 FF'' = [0x81, 0x01, 0x06, 0x01]"
    by (simp add: wire_bytes_def strip_ws_Cons strip_ws_Nil is_ws_chars is_ws_def
          digit_val_chars digit_val_def)
  moreover have "getPanSpeed NaN = ''NaN''"
    by (simp add: getPanSpeed_def Number_less_Number padStart_def)
  ultimately show ?thesis using g m by (simp del: One_nat_def)
qed

text \<open>
  Claim C7, as the code has it. For every speed whose clamped value is an integer (every
  integer, and every number below 1 or above the upper bound), the frame carries the
  pan speed clamped to \<open>[1, 18]\<close> and the tilt speed clamped to \<open>[1, 14]\<close>, each as
  two hexadecimal digits, the high one \<open>0\<close> when the value is below 16:
  \<open>getPanSpeed\<close> and \<open>getTiltSpeed\<close> return the two digits of the clamped value, and
  bytes 4 and 5 of the buffer written for \<open>moveTo\<close>, and for \<open>move\<close> in each of its
  eight directions, are the clamped values. With pan speed 30 the digits are \<open>12\<close>
  (18), with tilt speed 20 they are \<open>0e\<close> (14). A speed between the bounds that is no
  integer is not rounded.
\<close>

theorem speeds_clamped_in_frame:
  "(clamped_integer 1 18 ps = Some p \<longrightarrow>
      1 \<le> p \<and> p \<le> 18
    \<and> getPanSpeed ps = [hex_digit (nat p div 16), hex_digit (nat p mod 16)])
 \<and> (clamped_integer 1 14 ts = Some t \<longrightarrow>
      1 \<le> t \<and> t \<le> 14
    \<and> getTiltSpeed ts = [hex_digit (nat t div 16), hex_digit (nat t mod 16)])
 \<and> (clamped_integer 1 18 ps = Some p \<and> clamped_integer 1 14 ts = Some t \<longrightarrow>
      take 6 (wire_bytes (moveTo ps ts pan tilt relative)) =
        [0x81, 0x01, 0x06, if relative then 0x03 else 0x02, word_of_int p, word_of_int t]
    \<and> map_option (take 6 \<circ> wire_bytes) (move d ps ts) =
        (if 0 \<le> d \<and> d \<le> 7
         then Some [0x81, 0x01, 0x06, 0x01, word_of_int p, word_of_int t]
         else None))
 \<and> clamped_integer 1 18 (Number n) = Some (max 1 (min 18 n))
 \<and> clamped_integer 1 14 (Number n) = Some (max 1 (min 14 n))
 \<and> getPanSpeed (Number 30) = ''12'' \<and> getTiltSpeed (Number 20) = ''0e''
 \<and> take 6 (wire_bytes (moveTo (Number 30) (Number 20) pan tilt relative)) =
      [0x81, 0x01, 0x06, if relative then 0x03 else 0x02, 18, 14]"
proof -
  have e: "take 6 (wire_bytes (moveTo (Number 30) (Number 20) pan tilt relative)) =
      [0x81, 0x01, 0x06, if relative then 0x03 else 0x02, 18, 14]"
    using moveTo_speed_bytes[of "Number 30" 18 "Number 20" 14 pan tilt relative]
    by (simp add: clamped_integer_Number)
  have c: "clamped_integer 1 18 (Number n) = Some (max 1 (min 18 n))"
          "clamped_integer 1 14 (Number n) = Some (max 1 (min 14 n))"
    by (auto simp: clamped_integer_Number max_def min_def)
  show ?thesis
    using getPanSpeed_digits[of ps p] getTiltSpeed_digits[of ts t]
      moveTo_speed_bytes[of ps p ts t pan tilt relative] move_speed_bytes[of ps p ts t d]
      speed_examples(3,4) e c
    by blast
qed

theorem speeds_clamped_in_frame_witness:
  "getPanSpeed (Finite 61 1) = [hex_digit 1, hex_digit 2]
 \<and> getTiltSpeed (Number 3) = [hex_digit 0, hex_digit 3]
 \<and> map_option (take 6 \<circ> wire_bytes) (move 0 (Finite 61 1) (Number 3))
     = Some [0x81, 0x01, 0x06, 0x01, 18, 3]"
proof -
  have a: "clamped_integer 1 18 (Finite 61 1) = Some 18" "clamped_integer 1 14 (Number 3) = Some 3"
    by (simp_all add: clamped_integer_def Number_def)
  from speeds_clamped_in_frame [of "Finite 61 1" 18 "Number 3" 3 _ _ _ 0] a
  show ?thesis by simp
qed



section \<open>Response decoder: power inquiry\<close>

lemma hex_digit_eq_char:
  assumes "d < 16"
  shows "hex_digit d = CHR ''2'' \<longleftrightarrow> d = 2" "hex_digit d = CHR ''3'' \<longleftrightarrow> d = 3"
        "hex_digit d = CHR ''4'' \<longleftrightarrow> d = 4"
  using less_16_cases[OF assms] by (auto simp: hex_digit_def)

lemma toString_hex_Cons:
  "Buffer_toString_hex (b # bs) =
     hex_digit (unat b div 16) # hex_digit (unat b mod 16) # Buffer_toString_hex bs"
  by (simp add: Buffer_toString_hex_def)

lemma toString_hex_Nil: "Buffer_toString_hex [] = []"
  by (simp add: Buffer_toString_hex_def)

lemma char_at_odd:
  "char_at (Buffer_toString_hex bs) (2 * i + 1) =
     (if i < length bs then Some (hex_digit (unat (bs ! i) mod 16)) else None)"
proof (induction bs arbitrary: i)
  case Nil
  then show ?case by (simp add: char_at_def toString_hex_Nil)
next
  case (Cons b bs)
  show ?case
  proof (cases i)
    case 0
    then show ?thesis by (simp add: char_at_def toString_hex_Cons)
  next
    case (Suc j)
    have "char_at (Buffer_toString_hex (b # bs)) (2 * i + 1)
            = char_at (Buffer_toString_hex bs) (2 * j + 1)"
      using Suc by (simp add: char_at_def toString_hex_Cons)
    then show ?thesis using Cons[of j] Suc by simp
  qed
qed

lemma reply_text: "Buffer_toString_hex [0x90, 0x50, 0x02, 0xFF] = ''905002ff''"
  by (simp add: toString_hex_Cons toString_hex_Nil hex_digit_def)

text \<open>
  Claim C6. For every reply to a power inquiry, the status is the low nibble of the
  third byte, read as character 5 of the reply's hexadecimal text: 2 gives \<open>On\<close>,
  3 gives \<open>Off (standby)\<close>, 4 gives \<open>Internal power circuit error\<close>, and every other
  value, as well as a reply shorter than three bytes, gives \<open>Unknown\<close>. In every case
  the pending inquiry is resolved with that value; it is never rejected.
\<close>

theorem powerInquiry_decodes_status:
  "powerInquiry (Buffer_toString_hex reply) =
     (if length reply \<le> 2 then Str ''Unknown''
      else if unat (reply ! 2) mod 16 = 2 then Str ''On''
      else if unat (reply ! 2) mod 16 = 3 then Str ''Off (standby)''
      else if unat (reply ! 2) mod 16 = 4 then Str ''Internal power circuit error''
      else Str ''Unknown'')
 \<and> settled (step (Data reply) (s\<lparr> data_listeners := [(i, AwaitPower)] \<rparr>))
     = settled s @ [(i, Fulfilled (powerInquiry (Buffer_toString_hex reply)))]"
proof -
  have "char_at (Buffer_toString_hex reply) 5 =
     (if 2 < length reply then Some (hex_digit (unat (reply ! 2) mod 16)) else None)"
    using char_at_odd[of reply 2] by simp
  then show ?thesis
    by (simp add: powerInquiry_def Let_def hex_digit_eq_char data_event_def)
qed

section \<open>Session: the state cache\<close>

lemma step_keeps_cache:
  "power (step e s) = power s \<and> backlight (step e s) = backlight s
 \<and> position (step e s) = position s \<and> focus (step e s) = focus s
 \<and> whiteBalance (step e s) = whiteBalance s \<and> exposure (step e s) = exposure s
 \<and> shutterPos (step e s) = shutterPos s \<and> irisPos (step e s) = irisPos s
 \<and> videoFormat (step e s) = videoFormat s \<and> panTiltPos (step e s) = panTiltPos s
 \<and> colorFormat (step e s) = colorFormat s"
  by (cases e)
     (simp_all add: call_def write_callback_def data_event_def
        split: option.splits list.splits prod.splits)

text \<open>
  Claim C5, as the code has it. No event changes a field of the state cache: after any
  sequence of calls, write callbacks (with or without an error) and replies, \<open>power\<close>,
  \<open>backlight\<close>, \<open>position\<close>, \<open>focus\<close>, \<open>whiteBalance\<close>, \<open>exposure\<close>, \<open>shutterPos\<close>,
  \<open>irisPos\<close>, \<open>videoFormat\<close>, \<open>panTiltPos\<close> and \<open>colorFormat\<close> hold what they held
  before. A successful inquiry hands its decoded value to the caller only; a failed
  operation leaves the cache untouched, as every operation does.
\<close>

theorem cache_never_written:
  "power (run evs s) = power s \<and> backlight (run evs s) = backlight s
 \<and> position (run evs s) = position s \<and> focus (run evs s) = focus s
 \<and> whiteBalance (run evs s) = whiteBalance s \<and> exposure (run evs s) = exposure s
 \<and> shutterPos (run evs s) = shutterPos s \<and> irisPos (run evs s) = irisPos s
 \<and> videoFormat (run evs s) = videoFormat s \<and> panTiltPos (run evs s) = panTiltPos s
 \<and> colorFormat (run evs s) = colorFormat s"
proof (induction evs arbitrary: s)
  case Nil
  then show ?case by (simp add: run_def)
next
  case (Cons e evs)
  have "run (e # evs) s = run evs (step e s)" by (simp add: run_def)
  then show ?case using Cons[of "step e s"] step_keeps_cache[of e s] by simp
qed

text \<open>
  Claim C5 as stated fails: a power inquiry answered with status 2 resolves with \<open>On\<close>
  while the field \<open>power\<close> still holds \<open>Unknown\<close>, and \<open>backlightOn\<close> resolves with its
  write acknowledged while the field \<open>backlight\<close> still holds \<open>false\<close>.
\<close>

theorem cache_not_updated_counterexample:
  "settled (run [Call PowerInquiry, WriteCallback False, Data [0x90, 0x50, 0x02, 0xFF]]
              constructor) = [(0, Fulfilled (Str ''On''))]
 \<and> power (run [Call PowerInquiry, WriteCallback False, Data [0x90, 0x50, 0x02, 0xFF]]
             constructor) = Str ''Unknown''
 \<and> settled (run [Call BacklightOn, WriteCallback False] constructor)
     = [(0, Fulfilled (Response ''81 01 04 33 02 FF''))]
 \<and> backlight (run [Call BacklightOn, WriteCallback False] constructor) = Bool False"
  by (simp add: run_def call_def write_callback_def data_event_def constructor_def
        reply_text powerInquiry_def char_at_def backlightOn_def)

section \<open>Session: overlapping inquiries\<close>

lemma inquiry_wire:
  "wire_bytes powerInquiry_command = [0x81, 0x09, 0x04, 0x00, 0xFF]"
  "wire_bytes focusInquiry_command = [0x81, 0x09, 0x04, 0x38, 0xFF]"
  by (simp_all add: powerInquiry_command_def focusInquiry_command_def wire_bytes_def
        strip_ws_Cons strip_ws_Nil is_ws_chars digit_val_chars)

lemma back_to_back_state:
  "data_listeners back_to_back = [(0, AwaitPower), (1, AwaitFocus)]"
  "settled back_to_back = []"
  "written back_to_back = [[0x81, 0x09, 0x04, 0x00, 0xFF], [0x81, 0x09, 0x04, 0x38, 0xFF]]"
  by (simp_all add: back_to_back_def run_def call_def write_callback_def constructor_def
        inquiry_wire)

text \<open>
  Claim C1 as stated fails. A power inquiry and a focus inquiry are called back to
  back; both buffers are written, both write callbacks run, and both listeners are
  armed while neither call has ended. The first reply, to the power inquiry, then
  resolves both: the focus inquiry returns \<open>Auto\<close>, decoded from the power reply.
\<close>

theorem overlapping_inquiries_counterexample:
  "written back_to_back = [[0x81, 0x09, 0x04, 0x00, 0xFF], [0x81, 0x09, 0x04, 0x38, 0xFF]]
 \<and> data_listeners back_to_back = [(0, AwaitPower), (1, AwaitFocus)]
 \<and> settled back_to_back = []
 \<and> settled (step (Data [0x90, 0x50, 0x02, 0xFF]) back_to_back)
     = [(0, Fulfilled (Str ''On'')), (1, Fulfilled (Str ''Auto''))]"
  by (simp add: data_event_def back_to_back_state reply_text powerInquiry_def
        focusInquiry_def char_at_def)

lemma awaited_at_most_one:
  assumes "awaited s"
  shows "length (write_callbacks s) + length (data_listeners s) \<le> 1"
  using assms
proof (induction rule: awaited.induct)
  case start
  then show ?case by (simp add: constructor_def)
next
  case (submit s opn)
  then show ?case by (simp add: call_def split: option.splits prod.splits)
next
  case (written_back s err)
  then show ?case
    by (auto simp: write_callback_def split: option.splits list.splits prod.splits)
next
  case (received s d)
  then show ?case by (simp add: data_event_def)
qed

text \<open>
  Claim C1, as the code has it. The object does not order its calls; the order is the
  caller's. In any state, a reply resolves every inquiry whose listener is armed, each
  with that same reply, and disarms them all. When every method is called only after
  the calls before it have ended, then in every state reached at most one call is in
  flight, waiting for its write callback or for its reply; so an inquiry starts to
  wait for its reply only after the inquiry before it has resolved, and a reply
  resolves at most one inquiry.
\<close>

theorem awaited_calls_do_not_overlap:
  "(awaited s \<longrightarrow>
      length (write_callbacks s) + length (data_listeners s) \<le> 1
    \<and> length (settled (step (Data d) s)) \<le> length (settled s) + 1)
 \<and> settled (step (Data d) t)
     = settled t @ map (\<lambda>(i, k). (i, Fulfilled (resume k (Buffer_toString_hex d))))
                       (data_listeners t)
 \<and> data_listeners (step (Data d) t) = []"
proof -
  have "length (write_callbacks s) + length (data_listeners s) \<le> 1
      \<and> length (settled (step (Data d) s)) \<le> length (settled s) + 1"
    if "awaited s"
    using awaited_at_most_one[OF that] by (simp add: data_event_def)
  then show ?thesis
    by (simp add: data_event_def)
qed

theorem awaited_calls_do_not_overlap_witness:
  "awaited (run [Call PowerInquiry, WriteCallback False, Data [0x90, 0x50, 0x02, 0xFF],
                 Call FocusInquiry, WriteCallback False] constructor)
 \<and> length (write_callbacks
      (run [Call PowerInquiry, WriteCallback False, Data [0x90, 0x50, 0x02, 0xFF],
            Call FocusInquiry, WriteCallback False] constructor))
   + length (data_listeners
      (run [Call PowerInquiry, WriteCallback False, Data [0x90, 0x50, 0x02, 0xFF],
            Call FocusInquiry, WriteCallback False] constructor)) \<le> 1"
proof -
  have a: "awaited (run [Call PowerInquiry, WriteCallback False, Data [0x90, 0x50, 0x02, 0xFF],
                 Call FocusInquiry, WriteCallback False] constructor)"
    unfolding run_def foldl.simps
    apply (rule awaited.written_back)
    apply (rule awaited.submit)
      apply (rule awaited.received)
      apply (rule awaited.written_back)
      apply (rule awaited.submit)
        apply (rule awaited.start)
       apply (simp add: constructor_def)
      apply (simp add: constructor_def)
     apply (simp add: call_def write_callback_def data_event_def constructor_def)
    apply (simp add: call_def write_callback_def data_event_def constructor_def)
    done
  from awaited_calls_do_not_overlap
         [of "run [Call PowerInquiry, WriteCallback False, Data [0x90, 0x50, 0x02, 0xFF],
                   Call FocusInquiry, WriteCallback False] constructor"]
       a
  show ?thesis by blast
qed

section \<open>Frame encoder: the shape of the frames\<close>

lemma is_hex_chars:
  "is_hex CHR ''0''" "is_hex CHR ''1''" "is_hex CHR ''2''" "is_hex CHR ''3''" "is_hex CHR ''4''"
  "is_hex CHR ''5''" "is_hex CHR ''6''" "is_hex CHR ''7''" "is_hex CHR ''8''" "is_hex CHR ''9''"
  "is_hex CHR ''A''" "is_hex CHR ''B''" "is_hex CHR ''E''" "is_hex CHR ''F''"
  "\<not> is_hex CHR ''x''" "\<not> is_hex CHR ''-''"
  by (simp_all add: is_hex_def digit_val_chars)

lemma Buffer_from_hex_append:
  "list_all is_hex a \<Longrightarrow> even (length a) \<Longrightarrow>
     Buffer_from_hex (a @ b) = Buffer_from_hex a @ Buffer_from_hex b"
  by (induction a rule: Buffer_from_hex.induct) (auto simp: is_hex_def)

lemma frame_invariantI:
  assumes "strip_ws cmd = body @ ''FF''" "list_all is_hex body" "even (length body)"
  shows "frame_invariant cmd"
  using assms
  by (simp add: frame_invariant_def wire_bytes_def Buffer_from_hex_append is_hex_chars digit_val_chars)

lemma fixed_frames:
  "frame_invariant powerOn" "frame_invariant powerOff"
  "frame_invariant backlightOn" "frame_invariant backlightOff"
  "frame_invariant stop" "frame_invariant home" "frame_invariant reset"
  "frame_invariant powerInquiry_command" "frame_invariant focusInquiry_command"
  "frame_invariant whiteBalanceInquiry_command" "frame_invariant exposureInquiry_command"
  "frame_invariant backlightInquiry_command" "frame_invariant versionInquiry_command"
  "frame_invariant videoFormatInquiry_command" "frame_invariant positionInquiry_command"
  "frame_invariant colorFormatInquiry_command"
  by (simp_all add: frame_invariant_def wire_bytes_def strip_ws_Cons strip_ws_Nil is_ws_chars
      is_hex_chars digit_val_chars powerOn_def powerOff_def backlightOn_def backlightOff_def
      stop_def home_def reset_def powerInquiry_command_def focusInquiry_command_def
      whiteBalanceInquiry_command_def exposureInquiry_command_def backlightInquiry_command_def
      versionInquiry_command_def videoFormatInquiry_command_def positionInquiry_command_def
      colorFormatInquiry_command_def)

lemma exposure_frames: "frame_invariant (exposureMode mode)"
proof -
  have "mode \<le> 0 \<or> mode = 1 \<or> mode = 2 \<or> 3 \<le> mode" by arith
  then show ?thesis
    by (elim disjE)
       (auto simp: exposureMode_def frame_invariant_def wire_bytes_def strip_ws_Cons strip_ws_Nil
          is_ws_chars is_hex_chars digit_val_chars)
qed

lemma speed_hex:
  assumes "clamped_integer 1 18 ps = Some p" "clamped_integer 1 14 ts = Some t"
  shows "list_all is_hex (getPanSpeed ps)" "length (getPanSpeed ps) = 2"
        "list_all is_hex (getTiltSpeed ts)" "length (getTiltSpeed ts) = 2"
proof -
  note P = getPanSpeed_digits[OF assms(1)] and T = getTiltSpeed_digits[OF assms(2)]
  have "nat p div 16 < 16" "nat t div 16 < 16" using P(3) T(3) by simp_all
  then show "list_all is_hex (getPanSpeed ps)" "length (getPanSpeed ps) = 2"
  "list_all is_hex (getTiltSpeed ts)" "length (getTiltSpeed ts) = 2"
    by (simp_all add: P(1) T(1) is_hex_hex_digit)
qed

lemma Buffer_from_hex_length:
  "list_all is_hex h \<Longrightarrow> even (length h) \<Longrightarrow> 2 * length (Buffer_from_hex h) = length h"
  by (induction h rule: Buffer_from_hex.induct) (auto simp: is_hex_def)

lemma strip_ws_hex: "list_all is_hex s \<Longrightarrow> strip_ws s = s"
  by (induction s) (simp_all add: strip_ws_Cons strip_ws_Nil is_hex_not_ws)

lemma move_frames:
  assumes "move d ps ts = Some cmd"
    and "clamped_integer 1 18 ps = Some p" "clamped_integer 1 14 ts = Some t"
  shows "frame_invariant cmd" "length (wire_bytes cmd) = 9"
proof -
  note sh = speed_hex[OF assms(2,3)]
  have s: "strip_ws (getPanSpeed ps) = getPanSpeed ps" "strip_ws (getTiltSpeed ts) = getTiltSpeed ts"
    by (simp_all add: strip_ws_hex sh)
  obtain tl where c: "cmd = ''81 01 06 01 '' @ getPanSpeed ps @ '' '' @ getTiltSpeed ts @ tl @ '' FF''"
    and t: "tl \<in> {'' 03 01'', '' 03 02'', '' 01 03'', '' 02 03'',
                 '' 01 01'', '' 02 01'', '' 01 02'', '' 02 02''}"
    using assms(1) by (auto simp: move_def Let_def split: if_splits)
  define body where "body = ''81010601'' @ getPanSpeed ps @ getTiltSpeed ts @ strip_ws tl"
  have b: "strip_ws cmd = body @ ''FF''"
    unfolding c body_def by (simp add: strip_ws_append s strip_ws_Cons strip_ws_Nil is_ws_chars)
  have tl: "list_all is_hex (strip_ws tl)" "length (strip_ws tl) = 4"
    using t by (auto simp: strip_ws_Cons strip_ws_Nil is_ws_chars is_hex_chars)
  have h: "list_all is_hex body" "length body = 16"
    by (simp_all add: body_def sh tl is_hex_chars)
  then show "frame_invariant cmd"
    using b by (intro frame_invariantI[where body=body]) simp_all
  have "2 * length (Buffer_from_hex (body @ ''FF'')) = length (body @ ''FF'')"
    using h by (intro Buffer_from_hex_length) (simp_all add: is_hex_chars)
  then show "length (wire_bytes cmd) = 9"
    using h by (simp add: wire_bytes_def b)
qed

lemma padStart_hex:
  "list_all is_hex s \<Longrightarrow> list_all is_hex (padStart s n CHR ''0'') \<and> n \<le> length (padStart s n CHR ''0'')"
  by (auto simp: padStart_def is_hex_chars list_all_iff)

lemma toHex_wide:
  assumes "- 65536 \<le> v"
  shows "list_all is_hex (toHex v)" "4 \<le> length (toHex v)"
proof -
  have "toHex v = padStart (hex_of_nat (nat (if v < 0 then v + 65536 else v))) 4 CHR ''0''"
    using assms by (simp add: toHex_def toString16_def Let_def)
  then show "list_all is_hex (toHex v)" "4 \<le> length (toHex v)"
    using padStart_hex[OF hex_of_nat_all_hex] by simp_all
qed

lemma template_index_hex:
  assumes "list_all is_hex s" "4 \<le> length s" "i < 4"
  shows "\<exists>c. template_index s i = [c] \<and> is_hex c"
  using assms by (simp add: template_index_def list_all_length)

lemma moveTo_frames:
  assumes "- 65536 \<le> pan" "- 65536 \<le> tilt"
    and "clamped_integer 1 18 ps = Some p" "clamped_integer 1 14 ts = Some t"
  shows "frame_invariant (moveTo ps ts pan tilt relative)"
proof -
  note sh = speed_hex[OF assms(3,4)]
  have s: "strip_ws (getPanSpeed ps) = getPanSpeed ps" "strip_ws (getTiltSpeed ts) = getTiltSpeed ts"
    by (simp_all add: strip_ws_hex sh)
  note P = toHex_wide[OF assms(1)] and T = toHex_wide[OF assms(2)]
  obtain p0 where p0: "template_index (toHex pan) 0 = [p0]" "is_hex p0"
    using template_index_hex[OF P(1) P(2), of 0] by auto
  obtain p2 where p2: "template_index (toHex pan) 2 = [p2]" "is_hex p2"
    using template_index_hex[OF P(1) P(2), of 2] by auto
  obtain p3 where p3: "template_index (toHex pan) 3 = [p3]" "is_hex p3"
    using template_index_hex[OF P(1) P(2), of 3] by auto
  obtain t0 where t0: "template_index (toHex tilt) 0 = [t0]" "is_hex t0"
    using template_index_hex[OF T(1) T(2), of 0] by auto
  obtain t1 where t1: "template_index (toHex tilt) 1 = [t1]" "is_hex t1"
    using template_index_hex[OF T(1) T(2), of 1] by auto
  obtain t2 where t2: "template_index (toHex tilt) 2 = [t2]" "is_hex t2"
    using template_index_hex[OF T(1) T(2), of 2] by auto
  obtain t3 where t3: "template_index (toHex tilt) 3 = [t3]" "is_hex t3"
    using template_index_hex[OF T(1) T(2), of 3] by auto
  note nw = p0(2)[THEN is_hex_not_ws] p2(2)[THEN is_hex_not_ws] p3(2)[THEN is_hex_not_ws]
    t0(2)[THEN is_hex_not_ws] t1(2)[THEN is_hex_not_ws] t2(2)[THEN is_hex_not_ws] t3(2)[THEN is_hex_not_ws]
  define body where "body = ''810106'' @ (if relative then ''03'' else ''02'') @ getPanSpeed ps @ getTiltSpeed ts
     @ [CHR ''0'', p0, CHR ''0'', p0, CHR ''0'', p2, CHR ''0'', p3,
        CHR ''0'', t0, CHR ''0'', t1, CHR ''0'', t2, CHR ''0'', t3]"
  have "strip_ws (moveTo ps ts pan tilt relative) = body @ ''FF''"
    unfolding moveTo_def Let_def Math_round_def p0 p2 p3 t0 t1 t2 t3 body_def
    by (simp add: strip_ws_append s strip_ws_Cons strip_ws_Nil is_ws_chars nw)
  moreover have "list_all is_hex body" "even (length body)"
    by (simp_all add: body_def sh is_hex_chars p0 p2 p3 t0 t1 t2 t3)
  ultimately show ?thesis by (rule frame_invariantI)
qed


text \<open>
  Every method but \<open>cancelCommand\<close> sends a frame that keeps the invariant, for all
  modes and directions, for speeds whose clamped value is an integer, and for
  coordinates from \<open>-0x10000\<close> upwards.
\<close>

lemma other_frames_keep_invariant:
  assumes "request opn = Some (cmd, inq)"
    and "\<forall>socket. opn \<noteq> CancelCommand socket"
    and "\<forall>d ps ts. opn = Move d ps ts \<longrightarrow>
           clamped_integer 1 18 ps \<noteq> None \<and> clamped_integer 1 14 ts \<noteq> None"
    and "\<forall>ps ts pan tilt relative.
           opn = MoveTo ps ts pan tilt relative \<longrightarrow>
             clamped_integer 1 18 ps \<noteq> None \<and> clamped_integer 1 14 ts \<noteq> None
           \<and> - 65536 \<le> pan \<and> - 65536 \<le> tilt"
  shows "frame_invariant cmd"
  using assms
  by (cases opn)
     (auto simp: fixed_frames exposure_frames moveTo_frames move_frames(1)
           split: option.splits)

lemma moveTo_example:
  "moveTo (Number 3) (Number 3) 1008 228 False
     = ''81 01 06 02 03 03 00 00 0f 00 00 00 0e 04 FF''"
  by (simp add: moveTo_def Math_round_def toHex_examples speed_examples template_index_def)

text \<open>
  Claim C4 fails on the code at \<open>cancelCommand\<close>, for every socket. The command text
  is \<open>8x 201 FF\<close> or \<open>8x 202 FF\<close>: the address digit is the letter \<open>x\<close>, and the
  padded socket makes three digits after it where one belongs. With the white space
  removed the text has seven characters, not all of them hexadecimal digits, and
  \<open>Buffer.from\<close> stops at the first pair \<open>8x\<close>: the buffer handed to the port is
  empty and has no terminator.
\<close>

theorem cancelCommand_frame_malformed:
  "cancelCommand 1 = ''8x 201 FF''
 \<and> strip_ws (cancelCommand socket) = (if socket \<le> 1 then ''8x201FF'' else ''8x202FF'')
 \<and> odd (length (strip_ws (cancelCommand socket)))
 \<and> \<not> list_all is_hex (strip_ws (cancelCommand socket))
 \<and> wire_bytes (cancelCommand socket) = []
 \<and> written (step (Call (CancelCommand socket)) s) = written s @ [[]]
 \<and> \<not> frame_invariant (cancelCommand socket)"
proof -
  have w: "wire_bytes (cancelCommand socket) = []"
    by (simp add: cancelCommand_cases wire_bytes_def strip_ws_Cons strip_ws_Nil is_ws_chars
          digit_val_chars)
  then have "written (step (Call (CancelCommand socket)) s) = written s @ [[]]"
    by (simp add: call_def)
  moreover have "strip_ws (cancelCommand socket)
                   = (if socket \<le> 1 then ''8x201FF'' else ''8x202FF'')"
    by (simp add: cancelCommand_cases strip_ws_Cons strip_ws_Nil is_ws_chars)
  ultimately show ?thesis
    using w by (simp add: cancelCommand_frames frame_invariant_def is_hex_chars)
qed

text \<open>
  Claim C2 fails on the code at \<open>moveTo(3, 3, 1008, 228)\<close>, the first example in the
  method's documentation. The codec gives the pan digits \<open>03f0\<close> and the tilt digits
  \<open>00e4\<close>, whose expansion in order is \<open>00 03 0f 00 00 00 0e 04\<close>. The frame written
  has \<open>00 00 0f 00\<close> for pan: the first pan digit stands twice and the second is
  missing. The tilt digits stand in order.
\<close>

theorem moveTo_repeats_first_pan_digit:
  "toHex 1008 = ''03f0'' \<and> toHex 228 = ''00e4''
 \<and> Buffer_from_hex (expand (toHex 1008) @ expand (toHex 228))
     = [0x00, 0x03, 0x0F, 0x00, 0x00, 0x00, 0x0E, 0x04]
 \<and> moveTo (Number 3) (Number 3) 1008 228 False
     = ''81 01 06 02 03 03 00 00 0f 00 00 00 0e 04 FF''
 \<and> wire_bytes (moveTo (Number 3) (Number 3) 1008 228 False)
     = [0x81, 0x01, 0x06, 0x02, 0x03, 0x03,
        0x00, 0x00, 0x0F, 0x00, 0x00, 0x00, 0x0E, 0x04, 0xFF]"
proof -
  have "Buffer_from_hex (expand (toHex 1008) @ expand (toHex 228))
     = [0x00, 0x03, 0x0F, 0x00, 0x00, 0x00, 0x0E, 0x04]"
    by (simp add: toHex_examples expand_def template_index_def strip_ws_Cons strip_ws_Nil
          strip_ws_append is_ws_chars is_ws_lower digit_val_chars digit_val_lower)
  moreover have "wire_bytes (moveTo (Number 3) (Number 3) 1008 228 False)
     = [0x81, 0x01, 0x06, 0x02, 0x03, 0x03,
        0x00, 0x00, 0x0F, 0x00, 0x00, 0x00, 0x0E, 0x04, 0xFF]"
    by (simp add: moveTo_example wire_bytes_def strip_ws_Cons strip_ws_Nil is_ws_chars
          is_ws_lower digit_val_chars digit_val_lower)
  ultimately show ?thesis
    by (simp add: toHex_examples moveTo_example)
qed

text \<open>
  Claim C9 fails on the code at \<open>cancelCommand(5)\<close>, and likewise at
  \<open>cancelCommand(0)\<close>. The socket is clamped: the command text is that of socket 2,
  as for socket 0 it is that of socket 1, and \<open>sendCommand\<close> is called with it. But
  what is handed to the port is the empty buffer, for every socket: no frame for
  socket 2 is emitted, and nothing on the wire tells socket 1 from socket 2. The cause
  is the one of claim C4, the letter \<open>x\<close> left in the command text.
\<close>

theorem cancelCommand_emits_no_socket_frame:
  "cancelCommand socket = cancelCommand (max 1 (min 2 socket))
 \<and> request (CancelCommand socket) = Some (cancelCommand (max 1 (min 2 socket)), None)
 \<and> cancelCommand 0 = ''8x 201 FF'' \<and> cancelCommand 1 = ''8x 201 FF''
 \<and> cancelCommand 5 = ''8x 202 FF'' \<and> cancelCommand 2 = ''8x 202 FF''
 \<and> wire_bytes (cancelCommand 0) = [] \<and> wire_bytes (cancelCommand 5) = []
 \<and> written (step (Call (CancelCommand 0)) s) = written s @ [[]]
 \<and> written (step (Call (CancelCommand 5)) s) = written s @ [[]]
 \<and> write_callbacks (step (Call (CancelCommand 0)) s)
     = write_callbacks s @ [(calls s, ''8x 201 FF'', None)]
 \<and> write_callbacks (step (Call (CancelCommand 5)) s)
     = write_callbacks s @ [(calls s, ''8x 202 FF'', None)]"
proof -
  have w: "wire_bytes (cancelCommand k) = []" for k
    by (simp add: cancelCommand_cases wire_bytes_def strip_ws_Cons strip_ws_Nil is_ws_chars
          digit_val_chars)
  have t: "cancelCommand 0 = ''8x 201 FF''" "cancelCommand 5 = ''8x 202 FF''"
    by (simp_all add: cancelCommand_cases)
  have c: "written (step (Call (CancelCommand k)) s) = written s @ [[]]
         \<and> write_callbacks (step (Call (CancelCommand k)) s)
             = write_callbacks s @ [(calls s, cancelCommand k, None)]" for k
    by (simp add: call_def w)
  show ?thesis
    using cancelCommand_clamp[of socket] cancelCommand_frames w[of 0] w[of 5] c[of 0] c[of 5]
    by (simp add: t)
qed

text \<open>
  Claim C10. For a direction outside \<open>0, ..., 7\<close> and any speeds, \<open>move\<close> does not
  call \<open>sendCommand\<close>: nothing is written to the port, no write and no listener is
  left pending, and the call ends at once with the plain value \<open>undefined\<close>. For each
  of the eight directions \<open>0, ..., 7\<close> exactly one buffer is written, its promise is
  pending on the write, and the buffer begins with the bytes \<open>81 01 06 01\<close> of a
  move; when the clamped speeds are integers the buffer is the whole frame: nine
  bytes, the speeds at 4 and 5, the terminator \<open>0xFF\<close> last.
\<close>

theorem move_direction_outside_switch:
  "(d < 0 \<or> 7 < d \<longrightarrow>
      move d ps ts = None
    \<and> written (step (Call (Move d ps ts)) s) = written s
    \<and> write_callbacks (step (Call (Move d ps ts)) s) = write_callbacks s
    \<and> data_listeners (step (Call (Move d ps ts)) s) = data_listeners s
    \<and> settled (step (Call (Move d ps ts)) s) = settled s @ [(calls s, Returned Undefined)])
 \<and> (0 \<le> d \<and> d \<le> 7 \<longrightarrow>
      (\<exists>cmd. move d ps ts = Some cmd
           \<and> written (step (Call (Move d ps ts)) s) = written s @ [wire_bytes cmd]
           \<and> write_callbacks (step (Call (Move d ps ts)) s)
               = write_callbacks s @ [(calls s, cmd, None)]
           \<and> settled (step (Call (Move d ps ts)) s) = settled s
           \<and> take 4 (wire_bytes cmd) = [0x81, 0x01, 0x06, 0x01]))
 \<and> (0 \<le> d \<and> d \<le> 7 \<and> clamped_integer 1 18 ps = Some p \<and> clamped_integer 1 14 ts = Some t \<longrightarrow>
      (\<exists>cmd. move d ps ts = Some cmd
           \<and> written (step (Call (Move d ps ts)) s) = written s @ [wire_bytes cmd]
           \<and> frame_invariant cmd
           \<and> length (wire_bytes cmd) = 9
           \<and> take 6 (wire_bytes cmd) = [0x81, 0x01, 0x06, 0x01, word_of_int p, word_of_int t]))"
proof -
  have out: "move d ps ts = None
    \<and> written (step (Call (Move d ps ts)) s) = written s
    \<and> write_callbacks (step (Call (Move d ps ts)) s) = write_callbacks s
    \<and> data_listeners (step (Call (Move d ps ts)) s) = data_listeners s
    \<and> settled (step (Call (Move d ps ts)) s) = settled s @ [(calls s, Returned Undefined)]"
    if "d < 0 \<or> 7 < d"
    using that by (auto simp: move_def call_def Let_def)
  have some: "\<exists>cmd. move d ps ts = Some cmd" if "0 \<le> d \<and> d \<le> 7"
  proof -
    from that have "d = 0 \<or> d = 1 \<or> d = 2 \<or> d = 3 \<or> d = 4 \<or> d = 5 \<or> d = 6 \<or> d = 7" by arith
    then show ?thesis by (elim disjE) (simp_all add: move_def Let_def)
  qed
  have one: "written (step (Call (Move d ps ts)) s) = written s @ [wire_bytes cmd]
           \<and> write_callbacks (step (Call (Move d ps ts)) s)
               = write_callbacks s @ [(calls s, cmd, None)]
           \<and> settled (step (Call (Move d ps ts)) s) = settled s
           \<and> take 4 (wire_bytes cmd) = [0x81, 0x01, 0x06, 0x01]"
    if "move d ps ts = Some cmd" for cmd
    using that move_header[OF that] by (simp add: call_def)
  have whole: "frame_invariant cmd \<and> length (wire_bytes cmd) = 9
           \<and> take 6 (wire_bytes cmd) = [0x81, 0x01, 0x06, 0x01, word_of_int p, word_of_int t]"
    if "move d ps ts = Some cmd" "clamped_integer 1 18 ps = Some p"
       "clamped_integer 1 14 ts = Some t" for cmd
    using move_frames[OF that] move_speed_bytes[OF that(2,3), of d] that(1)
    by (simp split: if_splits)
  show ?thesis
    using out some one whole by blast
qed

theorem move_direction_outside_switch_witness:
  "written (step (Call (Move 8 (Number 5) (Number 3))) constructor) = []
 \<and> settled (step (Call (Move 8 (Number 5) (Number 3))) constructor) = [(0, Returned Undefined)]
 \<and> (\<exists>cmd. move 0 (Number 5) (Number 3) = Some cmd
         \<and> written (step (Call (Move 0 (Number 5) (Number 3))) constructor) = [wire_bytes cmd]
         \<and> frame_invariant cmd
         \<and> take 6 (wire_bytes cmd) = [0x81, 0x01, 0x06, 0x01, 5, 3])"
proof -
  have a: "clamped_integer 1 18 (Number 5) = Some 5" "clamped_integer 1 14 (Number 3) = Some 3"
    by (simp_all add: clamped_integer_Number)
  have b: "written constructor = []" "settled constructor = []" "calls constructor = 0"
    by (simp_all add: constructor_def)
  from move_direction_outside_switch [of 8 "Number 5" "Number 3" constructor]
       move_direction_outside_switch [of 0 "Number 5" "Number 3" constructor 5 3] a b
  show ?thesis by auto
qed

end
